theory Spec2Isabelle
  imports Main "HOL-Library.Word" "HOL-Library.Sublist"
begin

section \<open>Strings\<close>

text \<open>
  A JavaScript string is a sequence of UTF-16 code units. Literals of the source are
  written \<open>js ''...''\<close>; the non-ASCII characters of the toast texts are given by
  their code units.
\<close>

type_synonym code_unit = "16 word"
type_synonym js_string = "code_unit list"

definition js :: "string \<Rightarrow> js_string" where
  "js s = map (\<lambda>c. of_nat (of_char c)) s"

text \<open>The regular expression class \<open>\d\<close> is \<open>[0-9]\<close>.\<close>

definition is_digit :: "code_unit \<Rightarrow> bool" where
  "is_digit c = (0x30 \<le> c \<and> c \<le> 0x39)"

text \<open>
  Without the \<open>s\<close> flag, \<open>.\<close> matches every code unit except the four line
  terminators LF, CR, U+2028 and U+2029.
\<close>

definition is_line_terminator :: "code_unit \<Rightarrow> bool" where
  "is_line_terminator c = (c = 0x0A \<or> c = 0x0D \<or> c = 0x2028 \<or> c = 0x2029)"

text \<open>\<open>String.prototype.includes\<close>: the pattern occurs as a contiguous substring.\<close>

fun includes_str :: "js_string \<Rightarrow> js_string \<Rightarrow> bool" where
  "includes_str [] p = (p = [])"
| "includes_str (c # cs) p = (prefix p (c # cs) \<or> includes_str cs p)"

text \<open>
  The regular expressions \<^verbatim>\<open>/=w\d+.*$/\<close> and \<^verbatim>\<open>/=s\d+.*$/\<close> tried at the start
  of \<open>s\<close>, \<open>key\<close> being \<open>=w\<close> or \<open>=s\<close>: the key, one digit at least, and then only
  code units that \<open>.\<close> accepts up to the end of the input.
\<close>

definition size_suffix_here :: "js_string \<Rightarrow> js_string \<Rightarrow> bool" where
  "size_suffix_here key s =
     (prefix key s \<and>
      (case drop (length key) s of
         [] \<Rightarrow> False
       | d # rest \<Rightarrow> is_digit d \<and> list_all (\<lambda>c. \<not> is_line_terminator c) rest))"

text \<open>
  \<^verbatim>\<open>url.replace(/key\d+.*$/, rep)\<close>: the leftmost match is replaced, and since the match
  runs to the end of the input, everything from there on is. Without a match the string
  is returned as it is. The replacement texts of the source contain no \<open>$\<close>.
\<close>

fun replace_size_suffix :: "js_string \<Rightarrow> js_string \<Rightarrow> js_string \<Rightarrow> js_string" where
  "replace_size_suffix key rep [] = []"
| "replace_size_suffix key rep (c # cs) =
     (if size_suffix_here key (c # cs) then rep else c # replace_size_suffix key rep cs)"

text \<open>\<open>url.replace(/-no-gm/, '-no')\<close> of the service worker: the first occurrence only.\<close>

fun replace_first :: "js_string \<Rightarrow> js_string \<Rightarrow> js_string \<Rightarrow> js_string" where
  "replace_first pat rep [] = []"
| "replace_first pat rep (c # cs) =
     (if prefix pat (c # cs) then rep @ drop (length pat) (c # cs)
      else c # replace_first pat rep cs)"

text \<open>The decimal digits of a status code, for the template \<open>`HTTP ${resp.status}`\<close>.\<close>

fun decimal :: "nat \<Rightarrow> js_string" where
  "decimal n =
     (if n < 10 then [of_nat (48 + n)]
      else decimal (n div 10) @ [of_nat (48 + n mod 10)])"

text \<open>Truthiness of a value that is \<open>null\<close> or a string: the empty string is falsy.\<close>

fun truthy :: "js_string option \<Rightarrow> bool" where
  "truthy None = False"
| "truthy (Some s) = (s \<noteq> [])"

text \<open>\<open>a || b\<close> on such values.\<close>

definition js_or :: "js_string option \<Rightarrow> js_string option \<Rightarrow> js_string option" where
  "js_or a b = (if truthy a then a else b)"

section \<open>The URL normalizer\<close>

definition upgradeUrl :: "js_string \<Rightarrow> js_string" where
  "upgradeUrl url =
     (if includes_str url (js ''=w'')
        then replace_size_suffix (js ''=w'') (js ''=w2048-h2048-no'') url
      else if includes_str url (js ''=s'')
        then replace_size_suffix (js ''=s'') (js ''=s2048-no'') url
      else if includes_str url (js ''='') then url
      else url @ js ''=w2048-h2048-no'')"

text \<open>
  A size suffix in one of the two recognised syntaxes, \<open>=w\<close> or \<open>=s\<close> followed by
  digits and running to the end of the input, occurs somewhere in the string.
\<close>

fun has_size_suffix :: "js_string \<Rightarrow> bool" where
  "has_size_suffix [] = False"
| "has_size_suffix (c # cs) =
     (size_suffix_here (js ''=w'') (c # cs) \<or> size_suffix_here (js ''=s'') (c # cs)
      \<or> has_size_suffix cs)"

section \<open>Data of the pipeline\<close>

record blob =
  blob_type :: js_string
  blob_bytes :: "8 word list"

record js_error =
  err_name :: js_string
  err_message :: js_string

text \<open>\<open>new Error(msg)\<close>.\<close>

definition Error :: "js_string \<Rightarrow> js_error" where
  "Error msg = \<lparr>err_name = js ''Error'', err_message = msg\<rparr>"

record img_element =
  el_src :: js_string
  el_complete :: bool
  naturalWidth :: nat
  naturalHeight :: nat

record bitmap =
  bmp_width :: nat
  bmp_height :: nat
  bmp_pixels :: "8 word list"

text \<open>
  Drawing an image on a canvas and exporting it: the draw or the export throws (a tainted
  canvas), the \<open>toBlob\<close> callback receives \<open>null\<close>, or it receives a blob.
\<close>

datatype export_result = Throws js_error | BlobNull | Exported blob

text \<open>Loading a URL into a fresh \<open>Image\<close>: \<open>onerror\<close>, or \<open>onload\<close> and then the export.\<close>

datatype image_load = LoadFailed | Loaded export_result

text \<open>
  A \<open>fetch\<close> of the service worker: it rejects, or it resolves to a response with a status
  and a body whose reading (\<open>resp.blob()\<close>) rejects or gives a blob.
\<close>

datatype fetch_result = NetworkError js_error | Response nat "js_error + blob"

text \<open>
  The callback of \<open>chrome.runtime.sendMessage\<close>: \<open>chrome.runtime.lastError\<close> is set, the
  response is missing, or the listener's response arrives.
\<close>

datatype port_state = LastError js_string | NoResponse | Delivered

text \<open>What the service worker passes to \<open>sendResponse\<close>.\<close>

datatype bg_response = Success js_string | Failure js_string

text \<open>
  The calls that leave the pipeline, in the order in which they are made: strategy 1 reading
  the element, the message to the service worker, strategy 3 loading the URL, the two steps
  of a format conversion, and the two calls of the clipboard write.
\<close>

datatype event =
    GrabFromElement
  | SendMessage js_string
  | LoadImage js_string
  | CreateImageBitmap
  | ConvertToBlob
  | WindowFocus
  | ClipboardWrite blob

text \<open>
  The browser, the network and the page as the code meets them: one field for each call
  whose result the code does not determine. Every such call is taken to settle.
\<close>

record env =
  canvas_export :: "img_element \<Rightarrow> export_result"
  port :: "js_string \<Rightarrow> port_state"
  fetch_credentialed :: "js_string \<Rightarrow> fetch_result"
  fetch_plain :: "js_string \<Rightarrow> fetch_result"
  fetch_variant :: "js_string \<Rightarrow> fetch_result"
  read_as_data_url :: "blob \<Rightarrow> js_string option"
  fetch_data_url :: "js_string \<Rightarrow> js_error + blob"
  load_image :: "js_string \<Rightarrow> image_load"
  decode_bitmap :: "blob \<Rightarrow> js_error + bitmap"
  encode_png :: "bitmap \<Rightarrow> js_error + blob"
  found_in_body :: "img_element option"
  focused_on_message :: bool
  wait_start :: int
  poll_ticks :: "(bool \<times> int) list"
  focused_at_write :: bool
  clipboard_write :: "blob \<Rightarrow> js_error option"

type_synonym 'a traced = "event list \<times> (js_error + 'a)"

section \<open>The three strategies\<close>

definition of_export :: "export_result \<Rightarrow> js_error + blob" where
  "of_export r =
     (case r of
        Throws e \<Rightarrow> Inl e
      | BlobNull \<Rightarrow> Inl (Error (js ''toBlob null''))
      | Exported b \<Rightarrow> Inr b)"

definition grabFromElement :: "env \<Rightarrow> img_element option \<Rightarrow> blob traced" where
  "grabFromElement e imgEl =
     (case imgEl of
        None \<Rightarrow> ([GrabFromElement], Inl (Error (js ''Image element not ready'')))
      | Some el \<Rightarrow>
          if \<not> el_complete el then ([GrabFromElement], Inl (Error (js ''Image element not ready'')))
          else if naturalWidth el = 0
            then ([GrabFromElement], Inl (Error (js ''Image element not ready'')))
          else ([GrabFromElement], of_export (canvas_export e el)))"

definition http_ok :: "nat \<Rightarrow> bool" where
  "http_ok status = (200 \<le> status \<and> status \<le> 299)"

text \<open>The inner \<open>try\<close> of the service worker: with credentials, and without them if that rejects.\<close>

definition initial_response :: "env \<Rightarrow> js_string \<Rightarrow> fetch_result" where
  "initial_response e url =
     (case fetch_credentialed e url of
        NetworkError e1 \<Rightarrow> fetch_plain e url
      | Response status body \<Rightarrow> Response status body)"

text \<open>From a response that is kept: read the body, encode it as a data URL, respond.\<close>

definition respond_with :: "env \<Rightarrow> js_error + blob \<Rightarrow> bg_response" where
  "respond_with e body =
     (case body of
        Inl err \<Rightarrow> Failure (err_message err)
      | Inr b \<Rightarrow>
          (case read_as_data_url e b of
             None \<Rightarrow> Failure (js ''FileReader error'')
           | Some dataUrl \<Rightarrow> Success dataUrl))"

text \<open>
  The \<open>fetchImage\<close> listener of the service worker; \<open>None\<close> when it returns without
  responding (a falsy \<open>msg.url\<close>).
\<close>

definition fetchImage_listener :: "env \<Rightarrow> js_string \<Rightarrow> bg_response option" where
  "fetchImage_listener e url =
     (if url = [] then None
      else
        (case initial_response e url of
           NetworkError err \<Rightarrow> Some (Failure (err_message err))
         | Response status body \<Rightarrow>
             if http_ok status then Some (respond_with e body)
             else if status = 403 then
               (case fetch_variant e (replace_first (js ''-no-gm'') (js ''-no'') url) of
                  NetworkError err \<Rightarrow> Some (Failure (err_message err))
                | Response status2 body2 \<Rightarrow>
                    if http_ok status2 then Some (respond_with e body2)
                    else Some (Failure (js ''HTTP 403 on both URL variants'')))
             else Some (Failure (js ''HTTP '' @ decimal status))))"

definition fetchViaBackground :: "env \<Rightarrow> js_string \<Rightarrow> blob traced" where
  "fetchViaBackground e url =
     (case port e url of
        LastError m \<Rightarrow> ([SendMessage url], Inl (Error m))
      | NoResponse \<Rightarrow> ([SendMessage url], Inl (Error (js ''No response from background'')))
      | Delivered \<Rightarrow>
          (case fetchImage_listener e url of
             None \<Rightarrow> ([SendMessage url], Inl (Error (js ''No response from background'')))
           | Some (Success dataUrl) \<Rightarrow> ([SendMessage url], fetch_data_url e dataUrl)
           | Some (Failure m) \<Rightarrow> ([SendMessage url], Inl (Error m))))"

definition fetchViaDomCanvas :: "env \<Rightarrow> js_string \<Rightarrow> blob traced" where
  "fetchViaDomCanvas e url =
     (case load_image e url of
        LoadFailed \<Rightarrow> ([LoadImage url], Inl (Error (js ''Image load failed'')))
      | Loaded r \<Rightarrow> ([LoadImage url], of_export r))"

section \<open>The acquisition pipeline\<close>

text \<open>
  One block \<open>if (x) { try { return await method(x); } catch (e) { warn(...) } }\<close> followed
  by the rest of the function: a success returns, a failure is logged and dropped.
\<close>

definition attempt :: "'a option \<Rightarrow> ('a \<Rightarrow> blob traced) \<Rightarrow> blob traced \<Rightarrow> blob traced" where
  "attempt arg method rest =
     (case arg of
        None \<Rightarrow> rest
      | Some x \<Rightarrow>
          (case method x of
             (t, Inr b) \<Rightarrow> (t, Inr b)
           | (t, Inl err) \<Rightarrow> (t @ fst rest, snd rest)))"

definition fetchImageBlob :: "env \<Rightarrow> img_element option \<Rightarrow> js_string option \<Rightarrow> blob traced" where
  "fetchImageBlob e imgEl url =
     attempt imgEl (\<lambda>el. grabFromElement e (Some el))
       (attempt (if truthy url then url else None) (fetchViaBackground e)
          (attempt (if truthy url then url else None) (fetchViaDomCanvas e)
             ([], Inl (Error (js ''All fetch methods failed'')))))"

section \<open>The format normalizer\<close>

definition ensurePng :: "env \<Rightarrow> blob \<Rightarrow> blob traced" where
  "ensurePng e b =
     (if blob_type b = js ''image/png'' then ([], Inr b)
      else
        (case decode_bitmap e b of
           Inl err \<Rightarrow> ([CreateImageBitmap], Inl err)
         | Inr bmp \<Rightarrow> ([CreateImageBitmap, ConvertToBlob], encode_png e bmp)))"

text \<open>\<open>fetchImageBlob\<close> and then \<open>ensurePng\<close>, as every caller chains them.\<close>

definition acquire_png :: "env \<Rightarrow> img_element option \<Rightarrow> js_string option \<Rightarrow> blob traced" where
  "acquire_png e imgEl url =
     (case fetchImageBlob e imgEl url of
        (t, Inl err) \<Rightarrow> (t, Inl err)
      | (t, Inr b) \<Rightarrow> (case ensurePng e b of (t2, r) \<Rightarrow> (t @ t2, r)))"

section \<open>The single-slot cache and the pre-fetch\<close>

record cache =
  cachedBlob :: "blob option"
  cachedUrl :: "js_string option"
  targetImgElement :: "img_element option"

text \<open>
  \<open>prefetch\<close> up to its first \<open>await\<close>: the two early returns, else the slot is cleared and
  re-keyed. The flag tells whether a fetch was started.
\<close>

definition prefetch_start ::
  "cache \<Rightarrow> img_element option \<Rightarrow> js_string option \<Rightarrow> cache \<times> bool" where
  "prefetch_start s imgEl url =
     (if imgEl = None \<and> \<not> truthy url then (s, False)
      else if url = cachedUrl s \<and> cachedBlob s \<noteq> None then (s, False)
      else (s\<lparr>cachedBlob := None, cachedUrl := url, targetImgElement := imgEl\<rparr>, True))"

text \<open>
  \<open>prefetch\<close> after its awaits, run on the cache as it is by then: a result is stored only
  if the URL captured by this call is still the cached one, a failure is logged.
\<close>

definition prefetch_settle :: "cache \<Rightarrow> js_string option \<Rightarrow> js_error + blob \<Rightarrow> cache" where
  "prefetch_settle s url r =
     (case r of
        Inl err \<Rightarrow> s
      | Inr png \<Rightarrow> if cachedUrl s = url then s\<lparr>cachedBlob := Some png\<rparr> else s)"

text \<open>One call of \<open>prefetch\<close> with nothing else running in between.\<close>

definition prefetch ::
  "env \<Rightarrow> cache \<Rightarrow> img_element option \<Rightarrow> js_string option \<Rightarrow> cache \<times> event list" where
  "prefetch e s imgEl url =
     (case prefetch_start s imgEl url of
        (s', False) \<Rightarrow> (s', [])
      | (s', True) \<Rightarrow>
          (case acquire_png e imgEl url of (t, r) \<Rightarrow> (prefetch_settle s' url r, t)))"

text \<open>
  The event loop runs the two halves of each call atomically and in any order that puts
  a call's start before its completion.
\<close>

datatype step =
    Start "img_element option" "js_string option"
  | Settle "js_string option" "js_error + blob"

fun run_step :: "cache \<Rightarrow> step \<Rightarrow> cache" where
  "run_step s (Start imgEl url) = fst (prefetch_start s imgEl url)"
| "run_step s (Settle url r) = prefetch_settle s url r"

fun run :: "cache \<Rightarrow> step list \<Rightarrow> cache" where
  "run s [] = s"
| "run s (x # xs) = run (run_step s x) xs"

section \<open>Clipboard delivery from the context menu\<close>

record write_result =
  ok :: bool
  error :: "js_string option"

definition writeToClipboard :: "env \<Rightarrow> blob \<Rightarrow> event list \<times> write_result" where
  "writeToClipboard e b =
     (case clipboard_write e b of
        None \<Rightarrow>
          ((if focused_at_write e then [] else [WindowFocus]) @ [ClipboardWrite b],
           \<lparr>ok = True, error = None\<rparr>)
      | Some err \<Rightarrow>
          ((if focused_at_write e then [] else [WindowFocus]) @ [ClipboardWrite b],
           \<lparr>ok = False, error = Some (err_name err @ js '': '' @ err_message err)\<rparr>))"

definition getUrlFromElement :: "img_element option \<Rightarrow> js_string option" where
  "getUrlFromElement imgEl =
     (case imgEl of
        None \<Rightarrow> None
      | Some el \<Rightarrow> if el_src el = [] then None else Some (upgradeUrl (el_src el)))"

text \<open>
  The interval callback of the focus wait, one entry of the list per run of it: what
  \<open>document.hasFocus()\<close> and \<open>Date.now()\<close> return there. \<open>None\<close>: the promise is still
  pending after these runs.
\<close>

fun focus_wait :: "int \<Rightarrow> (bool \<times> int) list \<Rightarrow> bool option" where
  "focus_wait start [] = None"
| "focus_wait start ((focused, now) # ticks) =
     (if focused then Some True
      else if now - start > 2000 then Some False
      else focus_wait start ticks)"

text \<open>What a handled menu message leaves behind: the toasts, the response, the calls made.\<close>

record delivery =
  toasts :: "(js_string \<times> bool) list"
  response_ok :: bool
  calls :: "event list"

definition toast_of :: "write_result \<Rightarrow> js_string \<times> bool" where
  "toast_of result =
     (if ok result then (0x2713 # js '' Image copied!'', False)
      else (0x2717 # js '' '' @ (case error result of None \<Rightarrow> js ''undefined'' | Some m \<Rightarrow> m),
            True))"

text \<open>The \<open>try\<close> block of the handler, entered once the document has focus.\<close>

definition deliver :: "env \<Rightarrow> cache \<Rightarrow> js_string option \<Rightarrow> delivery" where
  "deliver e s srcUrl =
     (case (case cachedBlob s of
              Some b \<Rightarrow> ([], Inr b)
            | None \<Rightarrow>
                acquire_png e
                  (case targetImgElement s of Some el \<Rightarrow> Some el | None \<Rightarrow> found_in_body e)
                  (js_or (js_or (cachedUrl s)
                     (getUrlFromElement
                        (case targetImgElement s of Some el \<Rightarrow> Some el | None \<Rightarrow> found_in_body e)))
                     srcUrl)) of
        (t, Inl ex) \<Rightarrow>
          \<lparr>toasts = [(0x2717 # js '' '' @ err_message ex, True)], response_ok = False, calls = t\<rparr>
      | (t, Inr b) \<Rightarrow>
          (case writeToClipboard e b of
             (t2, result) \<Rightarrow>
               \<lparr>toasts = [toast_of result], response_ok = ok result, calls = t @ t2\<rparr>))"

text \<open>
  The listener for \<open>copyImageFromContextMenu\<close>; \<open>None\<close> while the focus wait is pending.
\<close>

definition copyImageFromContextMenu :: "env \<Rightarrow> cache \<Rightarrow> js_string option \<Rightarrow> delivery option" where
  "copyImageFromContextMenu e s srcUrl =
     (if focused_on_message e then Some (deliver e s srcUrl)
      else
        (case focus_wait (wait_start e) (poll_ticks e) of
           None \<Rightarrow> None
         | Some False \<Rightarrow>
             Some \<lparr>toasts =
                     [(0x2717 # js '' Page lost focus '' @ 0x2014 #
                         js '' try refreshing the page and retry'', True)],
                   response_ok = False, calls = []\<rparr>
         | Some True \<Rightarrow> Some (deliver e s srcUrl)))"

section \<open>Concrete inputs\<close>

definition png_blob :: blob where
  "png_blob = \<lparr>blob_type = js ''image/png'', blob_bytes = [0x89, 0x50, 0x4E, 0x47]\<rparr>"

definition other_png_blob :: blob where
  "other_png_blob = \<lparr>blob_type = js ''image/png'', blob_bytes = [0x89, 0x50, 0x4E, 0x47, 0x0D]\<rparr>"

definition jpeg_blob :: blob where
  "jpeg_blob = \<lparr>blob_type = js ''image/jpeg'', blob_bytes = [0xFF, 0xD8, 0xFF]\<rparr>"

definition html_blob :: blob where
  "html_blob = \<lparr>blob_type = js ''text/html'', blob_bytes = []\<rparr>"

definition photo_el :: img_element where
  "photo_el =
     \<lparr>el_src = js ''https://lh3.googleusercontent.com/pw/abc=w400-h300'', el_complete = True,
      naturalWidth = 400, naturalHeight = 300\<rparr>"

definition photo_url :: js_string where
  "photo_url = js ''https://lh3.googleusercontent.com/pw/abc=w400-h300-no-gm''"

definition url_a :: js_string where
  "url_a = js ''https://lh3.googleusercontent.com/pw/a=w2048-h2048-no''"

definition url_b :: js_string where
  "url_b = js ''https://lh3.googleusercontent.com/pw/b=w2048-h2048-no''"

definition query_url :: js_string where
  "query_url = js ''https://photos.example/img?id=7''"

definition bare_url :: js_string where
  "bare_url = js ''https://photos.example/img''"

definition empty_cache :: cache where
  "empty_cache = \<lparr>cachedBlob = None, cachedUrl = None, targetImgElement = None\<rparr>"

definition warm_cache :: cache where
  "warm_cache =
     \<lparr>cachedBlob = Some png_blob, cachedUrl = Some url_a, targetImgElement = Some photo_el\<rparr>"

text \<open>
  A page where nothing works: the canvas is tainted, the server answers 403 to every
  request, the image does not load, the document never regains focus in the 2050 ms
  that the wait runs, and the clipboard refuses the write.
\<close>

definition failing_env :: env where
  "failing_env =
     \<lparr>canvas_export = (\<lambda>el. Throws \<lparr>err_name = js ''SecurityError'',
                                       err_message = js ''Tainted canvases may not be exported.''\<rparr>),
      port = (\<lambda>u. Delivered),
      fetch_credentialed = (\<lambda>u. Response 403 (Inr html_blob)),
      fetch_plain = (\<lambda>u. Response 403 (Inr html_blob)),
      fetch_variant = (\<lambda>u. Response 403 (Inr html_blob)),
      read_as_data_url = (\<lambda>b. None),
      fetch_data_url = (\<lambda>d. Inl \<lparr>err_name = js ''TypeError'', err_message = js ''Failed to fetch''\<rparr>),
      load_image = (\<lambda>u. LoadFailed),
      decode_bitmap = (\<lambda>b. Inl \<lparr>err_name = js ''InvalidStateError'',
                                   err_message = js ''The source image could not be decoded.''\<rparr>),
      encode_png = (\<lambda>bmp. Inl (Error (js ''encode''))),
      found_in_body = None,
      focused_on_message = False,
      wait_start = 1000,
      poll_ticks = [(False, 1050), (False, 2000), (False, 3000), (False, 3050)],
      focused_at_write = False,
      clipboard_write = (\<lambda>b. Some \<lparr>err_name = js ''NotAllowedError'',
                                     err_message = js ''Document is not focused.''\<rparr>)\<rparr>"

text \<open>
  The server answers 403 to the URL as given and 200 to the variant without \<open>-gm\<close>; the
  worker reads the body and encodes it, and the page decodes the data URL.
\<close>

definition variant_env :: env where
  "variant_env =
     failing_env
       \<lparr>fetch_variant := (\<lambda>u. Response 200 (Inr jpeg_blob)),
        read_as_data_url := (\<lambda>b. Some (js ''data:image/jpeg;base64,/9j/'')),
        fetch_data_url := (\<lambda>d. Inr jpeg_blob)\<rparr>"

text \<open>
  A page whose document is without focus at the runs of the interval callback 50 ms and
  2000 ms after the start of the wait and has it at the next run, 2050 ms after the
  start; the clipboard then accepts the write.
\<close>

definition late_env :: env where
  "late_env =
     failing_env
       \<lparr>poll_ticks := [(False, 1050), (False, 3000), (True, 3050)],
        focused_at_write := True,
        clipboard_write := (\<lambda>b. None)\<rparr>"

section \<open>Facts about the string operations\<close>

lemma includes_sublist: "includes_str s p \<longleftrightarrow> sublist p s"
  by (induction s) (auto simp: sublist_Cons_right)

lemma includes_single: "includes_str s [c] \<longleftrightarrow> c \<in> set s"
  by (induction s) auto

lemma size_suffix_here_iff:
  "size_suffix_here key s \<longleftrightarrow>
     (\<exists>d rest. s = key @ d # rest \<and> is_digit d \<and> list_all (\<lambda>c. \<not> is_line_terminator c) rest)"
  by (auto simp: size_suffix_here_def prefix_def split: list.splits)

text \<open>The replacement either finds no match, or cuts the string where one starts.\<close>

lemma replace_cases:
  "replace_size_suffix key rep s = s \<or>
   (\<exists>a b. s = a @ b \<and> size_suffix_here key b \<and> replace_size_suffix key rep s = a @ rep)"
proof (induction s)
  case Nil
  show ?case by simp
next
  case (Cons c cs)
  show ?case
  proof (cases "size_suffix_here key (c # cs)")
    case True
    then have "c # cs = [] @ (c # cs) \<and> size_suffix_here key (c # cs) \<and>
       replace_size_suffix key rep (c # cs) = [] @ rep" by simp
    then show ?thesis by blast
  next
    case False
    from Cons.IH show ?thesis
    proof
      assume "replace_size_suffix key rep cs = cs"
      with False show ?thesis by simp
    next
      assume "\<exists>a b. cs = a @ b \<and> size_suffix_here key b \<and>
        replace_size_suffix key rep cs = a @ rep"
      then obtain a b where ab: "cs = a @ b" "size_suffix_here key b"
        "replace_size_suffix key rep cs = a @ rep" by blast
      with False have "c # cs = (c # a) @ b \<and> size_suffix_here key b \<and>
         replace_size_suffix key rep (c # cs) = (c # a) @ rep" by simp
      then show ?thesis by blast
    qed
  qed
qed

lemma replace_skip:
  "c \<notin> set a \<Longrightarrow>
   replace_size_suffix (c # k) rep (a @ b) = a @ replace_size_suffix (c # k) rep b"
  by (induction a) (auto simp: size_suffix_here_def)

lemma replace_without_suffix:
  "\<not> has_size_suffix s \<Longrightarrow>
   replace_size_suffix (js ''=w'') rep s = s \<and> replace_size_suffix (js ''=s'') rep s = s"
  by (induction s) auto

lemma matched_part_has_no_terminator:
  assumes "size_suffix_here key b" "list_all (\<lambda>c. \<not> is_line_terminator c) key"
  shows "list_all (\<lambda>c. \<not> is_line_terminator c) b"
proof -
  from assms(1) obtain d rest where b: "b = key @ d # rest" "is_digit d"
    "list_all (\<lambda>c. \<not> is_line_terminator c) rest"
    unfolding size_suffix_here_iff by auto
  have "\<not> is_line_terminator d" using b(2)
    by (auto simp: is_digit_def is_line_terminator_def)
  with b assms(2) show ?thesis by simp
qed

text \<open>
  A position in front of the cut that matches after the replacement matched before it:
  the replacement text starts with \<open>=\<close>, so the digit and what follows it up to the cut
  are code units of the input.
\<close>

lemma match_before_cut:
  assumes m: "size_suffix_here [e, k] (c # replace_size_suffix [e, k] (e # rep') cs)"
    and ek: "e \<noteq> k" and ed: "\<not> is_digit e"
    and nlt: "\<not> is_line_terminator e" "\<not> is_line_terminator k"
  shows "size_suffix_here [e, k] (c # cs)"
proof -
  let ?r = "replace_size_suffix [e, k] (e # rep') cs"
  from m obtain d rest where r: "c = e" "?r = k # d # rest" "is_digit d"
    "list_all (\<lambda>c. \<not> is_line_terminator c) rest"
    unfolding size_suffix_here_iff by auto
  from replace_cases [of "[e, k]" "e # rep'" cs] show ?thesis
  proof
    assume "?r = cs"
    with m show ?thesis by simp
  next
    assume "\<exists>a b. cs = a @ b \<and> size_suffix_here [e, k] b \<and> ?r = a @ e # rep'"
    then obtain a b where ab: "cs = a @ b" "size_suffix_here [e, k] b" "?r = a @ e # rep'"
      by blast
    from ab(3) r(2) have eq: "a @ e # rep' = k # d # rest" by simp
    from eq ek obtain a1 where a1: "a = k # a1" by (cases a) auto
    with eq have eq2: "a1 @ e # rep' = d # rest" by simp
    from eq2 ed r(3) obtain a2 where a2: "a1 = d # a2" by (cases a1) auto
    with eq2 have rest: "rest = a2 @ e # rep'" by simp
    have "list_all (\<lambda>c. \<not> is_line_terminator c) b"
      using matched_part_has_no_terminator [OF ab(2)] nlt by simp
    moreover have "list_all (\<lambda>c. \<not> is_line_terminator c) a2" using r(4) rest by simp
    ultimately show ?thesis using ab(1) a1 a2 r(1) r(3)
      unfolding size_suffix_here_iff by simp
  qed
qed

lemma replace_twice:
  assumes ek: "e \<noteq> k" and ed: "\<not> is_digit e"
    and nlt: "\<not> is_line_terminator e" "\<not> is_line_terminator k"
    and self: "size_suffix_here [e, k] (e # rep')"
  shows "replace_size_suffix [e, k] (e # rep') (replace_size_suffix [e, k] (e # rep') s)
       = replace_size_suffix [e, k] (e # rep') s"
proof (induction s)
  case Nil
  show ?case by simp
next
  case (Cons c cs)
  show ?case
  proof (cases "size_suffix_here [e, k] (c # cs)")
    case True
    with self show ?thesis by simp
  next
    case False
    with match_before_cut [OF _ ek ed nlt, of c rep' cs]
    have "\<not> size_suffix_here [e, k] (c # replace_size_suffix [e, k] (e # rep') cs)" by blast
    with False Cons.IH show ?thesis by simp
  qed
qed

lemma replace_keeps_key:
  assumes "includes_str s key" "prefix key rep"
  shows "includes_str (replace_size_suffix key rep s) key"
proof -
  from replace_cases [of key rep s] show ?thesis
  proof
    assume "replace_size_suffix key rep s = s"
    with assms show ?thesis by simp
  next
    assume "\<exists>a b. s = a @ b \<and> size_suffix_here key b \<and> replace_size_suffix key rep s = a @ rep"
    then obtain a where "replace_size_suffix key rep s = a @ rep" by blast
    moreover from assms(2) obtain t where "rep = key @ t" by (auto simp: prefix_def)
    ultimately show ?thesis by (simp add: includes_sublist)
  qed
qed

lemma key_w: "js ''=w'' = [0x3D, 0x77]"
  by (simp add: js_def)

lemma key_s: "js ''=s'' = [0x3D, 0x73]"
  by (simp add: js_def)

lemma key_eq: "js ''='' = [0x3D]"
  by (simp add: js_def)

lemma suffix_w: "js ''=w2048-h2048-no'' = 0x3D # js ''w2048-h2048-no''"
  by (simp add: js_def)

lemma suffix_s: "js ''=s2048-no'' = 0x3D # js ''s2048-no''"
  by (simp add: js_def)

lemma replace_w_twice:
  "replace_size_suffix (js ''=w'') (js ''=w2048-h2048-no'')
     (replace_size_suffix (js ''=w'') (js ''=w2048-h2048-no'') s)
   = replace_size_suffix (js ''=w'') (js ''=w2048-h2048-no'') s"
  unfolding key_w suffix_w
  by (rule replace_twice)
    (simp_all add: is_digit_def is_line_terminator_def size_suffix_here_def js_def)

lemma replace_s_twice:
  "replace_size_suffix (js ''=s'') (js ''=s2048-no'')
     (replace_size_suffix (js ''=s'') (js ''=s2048-no'') s)
   = replace_size_suffix (js ''=s'') (js ''=s2048-no'') s"
  unfolding key_s suffix_s
  by (rule replace_twice)
    (simp_all add: is_digit_def is_line_terminator_def size_suffix_here_def js_def)

text \<open>Rewriting an \<open>=s\<close> suffix does not create an occurrence of \<open>=w\<close>.\<close>

lemma replace_s_makes_no_w:
  assumes "\<not> includes_str s (js ''=w'')"
  shows "\<not> includes_str (replace_size_suffix (js ''=s'') (js ''=s2048-no'') s) (js ''=w'')"
proof -
  let ?r = "replace_size_suffix (js ''=s'') (js ''=s2048-no'') s"
  from replace_cases [of "js ''=s''" "js ''=s2048-no''" s] show ?thesis
  proof
    assume "?r = s"
    with assms show ?thesis by simp
  next
    assume "\<exists>a b. s = a @ b \<and> size_suffix_here (js ''=s'') b \<and> ?r = a @ js ''=s2048-no''"
    then obtain a b where ab: "s = a @ b" "?r = a @ js ''=s2048-no''" by blast
    from assms ab(1) have na: "\<not> sublist (js ''=w'') a"
      by (simp add: includes_sublist sublist_append)
    have nr: "\<not> sublist (js ''=w'') (js ''=s2048-no'')"
      by (simp add: js_def sublist_code(3))
    have nx: "\<not> (\<exists>x1 x2. js ''=w'' = x1 @ x2 \<and> suffix x1 a \<and> prefix x2 (js ''=s2048-no''))"
    proof
      assume "\<exists>x1 x2. js ''=w'' = x1 @ x2 \<and> suffix x1 a \<and> prefix x2 (js ''=s2048-no'')"
      then obtain x1 x2 where x: "js ''=w'' = x1 @ x2" "suffix x1 a"
        "prefix x2 (js ''=s2048-no'')" by blast
      from x(1) have "x1 = [] \<and> x2 = js ''=w'' \<or> x1 = [0x3D] \<and> x2 = [0x77]
          \<or> x1 = js ''=w'' \<and> x2 = []"
        unfolding key_w by (auto simp: Cons_eq_append_conv)
      then show False
      proof (elim disjE conjE)
        assume "x1 = []" "x2 = js ''=w''"
        with x(3) show False by (simp add: js_def)
      next
        assume "x1 = [0x3D]" "x2 = [0x77]"
        with x(3) show False by (simp add: js_def)
      next
        assume "x1 = js ''=w''" "x2 = []"
        with x(2) na show False using suffix_imp_sublist by blast
      qed
    qed
    from na nr nx show ?thesis unfolding ab(2) includes_sublist sublist_append by blast
  qed
qed

lemma no_eq_no_key:
  assumes "\<not> includes_str u (js ''='')"
  shows "\<not> includes_str u (js ''=w'') \<and> \<not> includes_str u (js ''=s'')"
proof -
  have "sublist (js ''='') (js ''=w'')" "sublist (js ''='') (js ''=s'')"
    by (simp_all add: js_def sublist_code(3))
  with assms show ?thesis
    unfolding includes_sublist by (blast intro: sublist_order.order_trans)
qed

section \<open>The URL normalizer: results\<close>

text \<open>
  Claim C9. The URL normalizer is idempotent: on every string, applying \<open>upgradeUrl\<close>
  twice gives what applying it once gives.
\<close>

theorem upgradeUrl_idempotent: "upgradeUrl (upgradeUrl u) = upgradeUrl u"
proof -
  consider (w) "includes_str u (js ''=w'')"
    | (s) "\<not> includes_str u (js ''=w'')" "includes_str u (js ''=s'')"
    | (e) "\<not> includes_str u (js ''=w'')" "\<not> includes_str u (js ''=s'')"
        "includes_str u (js ''='')"
    | (n) "\<not> includes_str u (js ''=w'')" "\<not> includes_str u (js ''=s'')"
        "\<not> includes_str u (js ''='')"
    by blast
  then show ?thesis
  proof cases
    case w
    have "includes_str (replace_size_suffix (js ''=w'') (js ''=w2048-h2048-no'') u) (js ''=w'')"
      by (rule replace_keeps_key [OF w]) (simp add: js_def)
    with w show ?thesis by (simp add: upgradeUrl_def replace_w_twice)
  next
    case s
    have "includes_str (replace_size_suffix (js ''=s'') (js ''=s2048-no'') u) (js ''=s'')"
      by (rule replace_keeps_key [OF s(2)]) (simp add: js_def)
    with s replace_s_makes_no_w [OF s(1)] show ?thesis
      by (simp add: upgradeUrl_def replace_s_twice)
  next
    case e
    then show ?thesis by (simp add: upgradeUrl_def)
  next
    case n
    from n(3) have nin: "0x3D \<notin> set u" by (simp add: key_eq includes_single)
    have inc: "includes_str (u @ js ''=w2048-h2048-no'') (js ''=w'')"
      by (simp add: includes_sublist sublist_append js_def sublist_code(3))
    have "replace_size_suffix (js ''=w'') (js ''=w2048-h2048-no'') (u @ js ''=w2048-h2048-no'')
        = u @ replace_size_suffix (js ''=w'') (js ''=w2048-h2048-no'') (js ''=w2048-h2048-no'')"
      unfolding key_w by (rule replace_skip [OF nin])
    also have "replace_size_suffix (js ''=w'') (js ''=w2048-h2048-no'') (js ''=w2048-h2048-no'')
        = js ''=w2048-h2048-no''"
      by (simp add: js_def size_suffix_here_def is_digit_def is_line_terminator_def)
    finally show ?thesis using n inc by (simp add: upgradeUrl_def)
  qed
qed

text \<open>
  Claim C4, as stated: whenever no size suffix in a recognised syntax is found in the
  input, the default suffix is appended, so no input comes back without a size suffix.
  This fails on a URL that contains \<open>=\<close> elsewhere, such as a query parameter: it has no
  size suffix, and the third line of \<open>upgradeUrl\<close> returns it unchanged.
\<close>

theorem upgradeUrl_appends_counterexample:
  "\<not> has_size_suffix query_url \<and> upgradeUrl query_url = query_url
   \<and> upgradeUrl query_url \<noteq> query_url @ js ''=w2048-h2048-no''
   \<and> \<not> has_size_suffix (upgradeUrl query_url)"
  by (simp add: query_url_def upgradeUrl_def js_def size_suffix_here_def is_digit_def)

text \<open>
  Claim C4, amended. \<open>upgradeUrl\<close> is a total function on strings (no operation in it
  throws on a string). It appends the default suffix \<open>=w2048-h2048-no\<close> to every input
  that contains no \<open>=\<close> at all, and it returns unchanged every input that contains \<open>=\<close>
  but no size suffix in a recognised syntax.
\<close>

theorem upgradeUrl_without_suffix:
  "(\<not> includes_str u (js ''='') \<longrightarrow> upgradeUrl u = u @ js ''=w2048-h2048-no'') \<and>
   (includes_str u (js ''='') \<and> \<not> has_size_suffix u \<longrightarrow> upgradeUrl u = u)"
proof (intro conjI impI)
  assume "\<not> includes_str u (js ''='')"
  with no_eq_no_key [of u] show "upgradeUrl u = u @ js ''=w2048-h2048-no''"
    by (simp add: upgradeUrl_def)
next
  assume "includes_str u (js ''='') \<and> \<not> has_size_suffix u"
  with replace_without_suffix [of u] show "upgradeUrl u = u"
    by (simp add: upgradeUrl_def)
qed

theorem upgradeUrl_without_suffix_witness:
  "\<not> includes_str bare_url (js ''='')
   \<and> upgradeUrl bare_url = js ''https://photos.example/img=w2048-h2048-no''
   \<and> includes_str query_url (js ''='') \<and> \<not> has_size_suffix query_url
   \<and> upgradeUrl query_url = js ''https://photos.example/img?id=7''"
proof -
  have a: "\<not> includes_str bare_url (js ''='')"
    by (simp add: bare_url_def js_def)
  have b: "includes_str query_url (js ''='') \<and> \<not> has_size_suffix query_url"
    by (simp add: query_url_def js_def size_suffix_here_def is_digit_def)
  from a upgradeUrl_without_suffix [of bare_url]
  have "upgradeUrl bare_url = bare_url @ js ''=w2048-h2048-no''" by blast
  moreover from b upgradeUrl_without_suffix [of query_url]
  have "upgradeUrl query_url = query_url" by blast
  ultimately show ?thesis using a b by (simp add: bare_url_def query_url_def js_def)
qed

section \<open>The acquisition pipeline: results\<close>

lemma grabFromElement_calls: "fst (grabFromElement e imgEl) = [GrabFromElement]"
  by (simp add: grabFromElement_def split: option.splits)

lemma fetchViaBackground_calls: "fst (fetchViaBackground e u) = [SendMessage u]"
  by (simp add: fetchViaBackground_def split: port_state.splits option.splits bg_response.splits)

lemma fetchViaDomCanvas_calls: "fst (fetchViaDomCanvas e u) = [LoadImage u]"
  by (simp add: fetchViaDomCanvas_def split: image_load.splits)

lemma attempt_success:
  "snd (method x) = Inr b \<Longrightarrow> attempt (Some x) method rest = (fst (method x), Inr b)"
  by (cases "method x") (simp add: attempt_def)

lemma attempt_failure:
  "isl (snd (method x)) \<Longrightarrow>
   attempt (Some x) method rest = (fst (method x) @ fst rest, snd rest)"
  by (cases "method x") (auto simp: attempt_def isl_def)

lemma attempt_skipped: "attempt None method rest = rest"
  by (simp add: attempt_def)

text \<open>
  Claim C2. Given an element and no URL (\<open>null\<close>), the pipeline makes one call, the read of
  the element: no message goes to the service worker and no image is loaded for a canvas.
  The result is the blob of strategy 1, or the exhaustion error if strategy 1 fails.
\<close>

theorem element_only_reads_element:
  "fetchImageBlob e (Some el) None =
     ([GrabFromElement],
      case snd (grabFromElement e (Some el)) of
        Inl err \<Rightarrow> Inl (Error (js ''All fetch methods failed''))
      | Inr b \<Rightarrow> Inr b)
   \<and> (\<forall>u. SendMessage u \<notin> set (fst (fetchImageBlob e (Some el) None)))
   \<and> (\<forall>u. LoadImage u \<notin> set (fst (fetchImageBlob e (Some el) None)))"
proof -
  have eq: "fetchImageBlob e (Some el) None =
     ([GrabFromElement],
      case snd (grabFromElement e (Some el)) of
        Inl err \<Rightarrow> Inl (Error (js ''All fetch methods failed''))
      | Inr b \<Rightarrow> Inr b)"
  proof (cases "snd (grabFromElement e (Some el))")
    case (Inl err)
    then have "isl (snd (grabFromElement e (Some el)))" by simp
    then show ?thesis using Inl
      by (simp add: fetchImageBlob_def attempt_failure attempt_skipped grabFromElement_calls)
  next
    case (Inr b)
    then show ?thesis
      by (simp add: fetchImageBlob_def attempt_success grabFromElement_calls)
  qed
  then show ?thesis by simp
qed

text \<open>
  Claim C3. Given a URL (a non-empty string) and no element, the element is never read; the
  first call is the message to the service worker (strategy 2), and the image is loaded
  for a canvas (strategy 3) only after that, and only if strategy 2 has failed.
\<close>

theorem url_only_skips_element_read:
  assumes "u \<noteq> []"
  shows "fetchImageBlob e None (Some u) =
     (case snd (fetchViaBackground e u) of
        Inr b \<Rightarrow> ([SendMessage u], Inr b)
      | Inl err \<Rightarrow>
          ([SendMessage u, LoadImage u],
           case snd (fetchViaDomCanvas e u) of
             Inl err' \<Rightarrow> Inl (Error (js ''All fetch methods failed''))
           | Inr b \<Rightarrow> Inr b))
   \<and> GrabFromElement \<notin> set (fst (fetchImageBlob e None (Some u)))
   \<and> hd (fst (fetchImageBlob e None (Some u))) = SendMessage u
   \<and> (LoadImage u \<in> set (fst (fetchImageBlob e None (Some u)))
        \<longrightarrow> isl (snd (fetchViaBackground e u)))"
proof -
  have eq: "fetchImageBlob e None (Some u) =
     (case snd (fetchViaBackground e u) of
        Inr b \<Rightarrow> ([SendMessage u], Inr b)
      | Inl err \<Rightarrow>
          ([SendMessage u, LoadImage u],
           case snd (fetchViaDomCanvas e u) of
             Inl err' \<Rightarrow> Inl (Error (js ''All fetch methods failed''))
           | Inr b \<Rightarrow> Inr b))"
  proof (cases "snd (fetchViaBackground e u)")
    case (Inr b)
    with assms show ?thesis
      by (simp add: fetchImageBlob_def attempt_skipped attempt_success fetchViaBackground_calls)
  next
    case B: (Inl err)
    then have fb: "isl (snd (fetchViaBackground e u))" by simp
    show ?thesis
    proof (cases "snd (fetchViaDomCanvas e u)")
      case (Inr b)
      with assms B fb show ?thesis
        by (simp add: fetchImageBlob_def attempt_skipped attempt_failure attempt_success
            fetchViaBackground_calls fetchViaDomCanvas_calls)
    next
      case (Inl err')
      then have "isl (snd (fetchViaDomCanvas e u))" by simp
      with assms B fb Inl show ?thesis
        by (simp add: fetchImageBlob_def attempt_skipped attempt_failure
            fetchViaBackground_calls fetchViaDomCanvas_calls)
    qed
  qed
  show ?thesis
    unfolding eq by (cases "snd (fetchViaBackground e u)") simp_all
qed

text \<open>
  Claim C6. When every applicable strategy fails (strategy 1 if an element is given,
  strategies 2 and 3 if a URL is given), the pipeline fails with one error, the aggregate
  \<open>All fetch methods failed\<close>, whatever the errors of the strategies were.
\<close>

theorem exhaustion_is_one_aggregate_failure:
  assumes "\<forall>el. imgEl = Some el \<longrightarrow> isl (snd (grabFromElement e (Some el)))"
    and "\<forall>u. url = Some u \<and> u \<noteq> [] \<longrightarrow>
           isl (snd (fetchViaBackground e u)) \<and> isl (snd (fetchViaDomCanvas e u))"
  shows "snd (fetchImageBlob e imgEl url) = Inl (Error (js ''All fetch methods failed''))"
proof -
  let ?tail = "attempt (if truthy url then url else None) (fetchViaBackground e)
       (attempt (if truthy url then url else None) (fetchViaDomCanvas e)
          ([], Inl (Error (js ''All fetch methods failed''))))"
  have tail: "snd ?tail = Inl (Error (js ''All fetch methods failed''))"
  proof (cases "truthy url")
    case False
    then show ?thesis by (simp add: attempt_skipped)
  next
    case True
    then obtain u where u: "url = Some u" "u \<noteq> []" by (cases url) auto
    with assms(2) have "isl (snd (fetchViaBackground e u))" "isl (snd (fetchViaDomCanvas e u))"
      by auto
    with u show ?thesis by (simp add: attempt_failure)
  qed
  show ?thesis
  proof (cases imgEl)
    case None
    with tail show ?thesis by (simp add: fetchImageBlob_def attempt_skipped)
  next
    case (Some el)
    with assms(1) have "isl (snd (grabFromElement e (Some el)))" by simp
    with Some tail show ?thesis by (simp add: fetchImageBlob_def attempt_failure)
  qed
qed

subsection \<open>The pipeline on the concrete pages\<close>

lemma photo_url_not_empty: "photo_url \<noteq> []"
  by (simp add: photo_url_def js_def)

lemma failing_env_element:
  "isl (snd (grabFromElement failing_env (Some photo_el)))"
  by (simp add: grabFromElement_def failing_env_def photo_el_def of_export_def)

lemma failing_env_background: "isl (snd (fetchViaBackground failing_env u))"
  by (simp add: fetchViaBackground_def fetchImage_listener_def initial_response_def
      failing_env_def http_ok_def)

lemma failing_env_canvas: "isl (snd (fetchViaDomCanvas failing_env u))"
  by (simp add: fetchViaDomCanvas_def failing_env_def)

lemma variant_env_listener:
  "fetchImage_listener variant_env photo_url = Some (Success (js ''data:image/jpeg;base64,/9j/''))"
  using photo_url_not_empty
  by (simp add: fetchImage_listener_def initial_response_def respond_with_def
      variant_env_def failing_env_def http_ok_def)

lemma variant_env_background: "snd (fetchViaBackground variant_env photo_url) = Inr jpeg_blob"
proof -
  have "port variant_env photo_url = Delivered"
    by (simp add: variant_env_def failing_env_def)
  moreover have "fetch_data_url variant_env (js ''data:image/jpeg;base64,/9j/'') = Inr jpeg_blob"
    by (simp add: variant_env_def failing_env_def)
  ultimately show ?thesis
    by (simp add: fetchViaBackground_def variant_env_listener)
qed

theorem url_only_skips_element_read_witness:
  "photo_url \<noteq> []
   \<and> fetchImageBlob variant_env None (Some photo_url) = ([SendMessage photo_url], Inr jpeg_blob)
   \<and> fst (fetchImageBlob failing_env None (Some photo_url))
       = [SendMessage photo_url, LoadImage photo_url]"
proof -
  from url_only_skips_element_read [OF photo_url_not_empty, of variant_env]
  have "fetchImageBlob variant_env None (Some photo_url) = ([SendMessage photo_url], Inr jpeg_blob)"
    by (simp add: variant_env_background)
  moreover
  obtain err where "snd (fetchViaBackground failing_env photo_url) = Inl err"
    using failing_env_background [of photo_url] by (auto simp: isl_def)
  with url_only_skips_element_read [OF photo_url_not_empty, of failing_env]
  have "fst (fetchImageBlob failing_env None (Some photo_url))
      = [SendMessage photo_url, LoadImage photo_url]"
    by simp
  ultimately show ?thesis using photo_url_not_empty by simp
qed

theorem exhaustion_is_one_aggregate_failure_witness:
  "isl (snd (grabFromElement failing_env (Some photo_el)))
   \<and> photo_url \<noteq> []
   \<and> isl (snd (fetchViaBackground failing_env photo_url))
   \<and> isl (snd (fetchViaDomCanvas failing_env photo_url))
   \<and> snd (fetchImageBlob failing_env (Some photo_el) (Some photo_url))
       = Inl \<lparr>err_name = js ''Error'', err_message = js ''All fetch methods failed''\<rparr>"
proof -
  have "snd (fetchImageBlob failing_env (Some photo_el) (Some photo_url))
      = Inl (Error (js ''All fetch methods failed''))"
    by (rule exhaustion_is_one_aggregate_failure)
      (simp_all add: failing_env_element failing_env_background failing_env_canvas)
  then show ?thesis
    using failing_env_element failing_env_background failing_env_canvas photo_url_not_empty
    by (simp add: Error_def)
qed

text \<open>
  Claim C5. Let strategy 1 be unavailable or have failed, and a URL be present. The
  response that the service worker has for that URL (with credentials, or without them
  after a rejection) has status 403, and its request to the variant URL succeeds: a success
  status and a body that is read, encoded as a data URL and handed back to the page, which
  takes the blob from it. Then the acquisition succeeds with that blob by strategy 2,
  whose message is the last call made: strategy 3 is never attempted.
\<close>

theorem variant_retry_succeeds_by_strategy_2:
  assumes "imgEl = None \<or> isl (snd (grabFromElement e imgEl))"
    and "u \<noteq> []"
    and "initial_response e u = Response 403 body1"
    and "fetch_variant e (replace_first (js ''-no-gm'') (js ''-no'') u)
           = Response status2 (Inr fetched)"
    and "http_ok status2"
    and "read_as_data_url e fetched = Some dataUrl"
    and "port e u = Delivered"
    and "fetch_data_url e dataUrl = Inr b"
  shows "snd (fetchImageBlob e imgEl (Some u)) = Inr b
   \<and> last (fst (fetchImageBlob e imgEl (Some u))) = SendMessage u
   \<and> (\<forall>v. LoadImage v \<notin> set (fst (fetchImageBlob e imgEl (Some u))))"
proof -
  have "\<not> http_ok 403" by (simp add: http_ok_def)
  with assms have listener: "fetchImage_listener e u = Some (Success dataUrl)"
    by (simp add: fetchImage_listener_def respond_with_def)
  with assms have bg: "snd (fetchViaBackground e u) = Inr b"
    by (simp add: fetchViaBackground_def)
  have rest: "attempt (Some u) (fetchViaBackground e)
       (attempt (Some u) (fetchViaDomCanvas e) ([], Inl (Error (js ''All fetch methods failed''))))
     = ([SendMessage u], Inr b)"
    using bg by (simp add: attempt_success fetchViaBackground_calls)
  from assms(1) show ?thesis
  proof
    assume "imgEl = None"
    with assms(2) rest show ?thesis by (simp add: fetchImageBlob_def attempt_skipped)
  next
    assume failed: "isl (snd (grabFromElement e imgEl))"
    show ?thesis
    proof (cases imgEl)
      case None
      with assms(2) rest show ?thesis by (simp add: fetchImageBlob_def attempt_skipped)
    next
      case (Some el)
      with failed assms(2) rest show ?thesis
        by (simp add: fetchImageBlob_def attempt_failure grabFromElement_calls)
    qed
  qed
qed

theorem variant_retry_succeeds_by_strategy_2_witness:
  "isl (snd (grabFromElement variant_env (Some photo_el)))
   \<and> photo_url \<noteq> []
   \<and> initial_response variant_env photo_url = Response 403 (Inr html_blob)
   \<and> fetch_variant variant_env (replace_first (js ''-no-gm'') (js ''-no'') photo_url)
       = Response 200 (Inr jpeg_blob)
   \<and> http_ok 200
   \<and> read_as_data_url variant_env jpeg_blob = Some (js ''data:image/jpeg;base64,/9j/'')
   \<and> port variant_env photo_url = Delivered
   \<and> fetch_data_url variant_env (js ''data:image/jpeg;base64,/9j/'') = Inr jpeg_blob
   \<and> snd (fetchImageBlob variant_env (Some photo_el) (Some photo_url)) = Inr jpeg_blob
   \<and> last (fst (fetchImageBlob variant_env (Some photo_el) (Some photo_url)))
       = SendMessage photo_url"
proof -
  have h1: "isl (snd (grabFromElement variant_env (Some photo_el)))"
    by (simp add: grabFromElement_def variant_env_def failing_env_def photo_el_def of_export_def)
  have h3: "initial_response variant_env photo_url = Response 403 (Inr html_blob)"
    by (simp add: initial_response_def variant_env_def failing_env_def)
  have h4: "fetch_variant variant_env (replace_first (js ''-no-gm'') (js ''-no'') photo_url)
       = Response 200 (Inr jpeg_blob)"
    by (simp add: variant_env_def failing_env_def)
  have h5: "http_ok 200" by (simp add: http_ok_def)
  have h6: "read_as_data_url variant_env jpeg_blob = Some (js ''data:image/jpeg;base64,/9j/'')"
    by (simp add: variant_env_def failing_env_def)
  have h7: "port variant_env photo_url = Delivered"
    by (simp add: variant_env_def failing_env_def)
  have h8: "fetch_data_url variant_env (js ''data:image/jpeg;base64,/9j/'') = Inr jpeg_blob"
    by (simp add: variant_env_def failing_env_def)
  from variant_retry_succeeds_by_strategy_2
    [OF disjI2 [OF h1] photo_url_not_empty h3 h4 h5 h6 h7 h8]
  show ?thesis using h1 photo_url_not_empty h3 h4 h5 h6 h7 h8 by simp
qed

section \<open>The format normalizer: results\<close>

text \<open>
  Claim C8. A blob whose declared type is already \<open>image/png\<close> is returned as it is and
  no conversion call is made; the conversion calls are made only for a blob that declares
  another type (and for each of those the decoding is attempted).
\<close>

theorem ensurePng_png_unchanged:
  "(blob_type b = js ''image/png'' \<longrightarrow> ensurePng e b = ([], Inr b))
   \<and> (fst (ensurePng e b) \<noteq> [] \<longrightarrow> blob_type b \<noteq> js ''image/png'')
   \<and> (blob_type b \<noteq> js ''image/png'' \<longrightarrow> hd (fst (ensurePng e b)) = CreateImageBitmap)"
proof (cases "blob_type b = js ''image/png''")
  case True
  then have "ensurePng e b = ([], Inr b)" by (simp add: ensurePng_def)
  with True show ?thesis by simp
next
  case False
  have "hd (fst (ensurePng e b)) = CreateImageBitmap"
  proof (cases "decode_bitmap e b")
    case (Inl err)
    with False show ?thesis by (simp add: ensurePng_def)
  next
    case (Inr bmp)
    with False show ?thesis by (simp add: ensurePng_def)
  qed
  with False show ?thesis by simp
qed

theorem ensurePng_png_unchanged_witness:
  "blob_type png_blob = js ''image/png''
   \<and> ensurePng failing_env png_blob = ([], Inr png_blob)
   \<and> blob_type jpeg_blob \<noteq> js ''image/png''
   \<and> fst (ensurePng failing_env jpeg_blob) \<noteq> []
   \<and> hd (fst (ensurePng failing_env jpeg_blob)) = CreateImageBitmap"
proof -
  have p: "blob_type png_blob = js ''image/png''" by (simp add: png_blob_def)
  have j: "blob_type jpeg_blob \<noteq> js ''image/png''" by (simp add: jpeg_blob_def js_def)
  have c: "fst (ensurePng failing_env jpeg_blob) \<noteq> []"
    using j by (simp add: ensurePng_def failing_env_def)
  from p j c ensurePng_png_unchanged [of png_blob failing_env]
    ensurePng_png_unchanged [of jpeg_blob failing_env]
  show ?thesis by blast
qed

section \<open>The cache: results\<close>

text \<open>
  Claim C10. When the cached URL is \<open>u\<close> and a blob is cached, a call of \<open>prefetch\<close> for
  \<open>u\<close> changes none of \<open>cachedBlob\<close>, \<open>cachedUrl\<close> and \<open>targetImgElement\<close>, starts no
  fetch and makes no call, whatever element it is given.
\<close>

theorem prefetch_same_target_is_noop:
  assumes "cachedUrl s = u" and "cachedBlob s \<noteq> None"
  shows "prefetch_start s imgEl u = (s, False) \<and> prefetch e s imgEl u = (s, [])"
  using assms by (simp add: prefetch_def prefetch_start_def)

theorem prefetch_same_target_is_noop_witness:
  "cachedUrl warm_cache = Some url_a \<and> cachedBlob warm_cache \<noteq> None
   \<and> prefetch_start warm_cache None (Some url_a) = (warm_cache, False)
   \<and> prefetch failing_env warm_cache None (Some url_a) = (warm_cache, [])"
proof -
  have a: "cachedUrl warm_cache = Some url_a" by (simp add: warm_cache_def)
  have b: "cachedBlob warm_cache \<noteq> None" by (simp add: warm_cache_def)
  from prefetch_same_target_is_noop [OF a b, of None failing_env] a b
  show ?thesis by simp
qed

text \<open>A settling fetch for another URL leaves a slot keyed by \<open>urlB\<close> as it is.\<close>

lemma settle_keeps_newer:
  assumes "urlA \<noteq> urlB" and "cachedUrl s = urlB"
    and "cachedBlob s = None \<or> (\<exists>png. rB = Inr png \<and> cachedBlob s = Some png)"
    and "x = Settle urlA rA \<or> x = Settle urlB rB"
  shows "cachedUrl (run_step s x) = urlB \<and>
    (cachedBlob (run_step s x) = None \<or>
     (\<exists>png. rB = Inr png \<and> cachedBlob (run_step s x) = Some png))"
  using assms by (auto simp: prefetch_settle_def split: sum.splits)

lemma run_keeps_newer:
  assumes "urlA \<noteq> urlB"
    and "list_all (\<lambda>x. x = Settle urlA rA \<or> x = Settle urlB rB) later"
    and "cachedUrl s = urlB"
    and "cachedBlob s = None \<or> (\<exists>png. rB = Inr png \<and> cachedBlob s = Some png)"
  shows "cachedUrl (run s later) = urlB \<and>
    (cachedBlob (run s later) = None \<or>
     (\<exists>png. rB = Inr png \<and> cachedBlob (run s later) = Some png))"
  using assms(2-4)
proof (induction later arbitrary: s)
  case Nil
  then show ?case by simp
next
  case (Cons x xs)
  from Cons.prems(1) have x: "x = Settle urlA rA \<or> x = Settle urlB rB"
    and xs: "list_all (\<lambda>x. x = Settle urlA rA \<or> x = Settle urlB rB) xs"
    by simp_all
  from settle_keeps_newer [OF assms(1) Cons.prems(2) Cons.prems(3) x]
  have "cachedUrl (run_step s x) = urlB"
    "cachedBlob (run_step s x) = None \<or>
       (\<exists>png. rB = Inr png \<and> cachedBlob (run_step s x) = Some png)"
    by simp_all
  with Cons.IH [OF xs] show ?case by simp
qed

text \<open>After the start of A, the start of B for another URL clears and re-keys the slot.\<close>

lemma second_start_clears:
  assumes "elA \<noteq> None \<or> truthy urlA" and "elB \<noteq> None \<or> truthy urlB" and "urlA \<noteq> urlB"
  shows "cachedUrl (run s0 [Start elA urlA, Start elB urlB]) = urlB
    \<and> cachedBlob (run s0 [Start elA urlA, Start elB urlB]) = None"
proof -
  have a: "cachedUrl (fst (prefetch_start s0 elA urlA)) = urlA"
    using assms(1) by (auto simp: prefetch_start_def)
  with assms(2,3) show ?thesis
    by (auto simp: prefetch_start_def)
qed

lemma run_append: "run s (xs @ ys) = run (run s xs) ys"
  by (induction xs arbitrary: s) simp_all

text \<open>
  Claim C1. Two calls of \<open>prefetch\<close>, for a target A and then for a target B with another
  URL, followed by the completions of their fetches in any order (so A's fetch settles
  after B's call has begun): at every point from B's call on, the slot is empty or holds
  the blob that B's fetch produced. What A's fetch produced is dropped, since the slot
  was cleared and re-keyed by B's call and a result is stored only under the URL its own
  call captured.
\<close>

theorem stale_prefetch_never_lands:
  assumes "elA \<noteq> None \<or> truthy urlA" and "elB \<noteq> None \<or> truthy urlB" and "urlA \<noteq> urlB"
    and "list_all (\<lambda>x. x = Settle urlA rA \<or> x = Settle urlB rB) later"
  shows "cachedUrl (run s0 (Start elA urlA # Start elB urlB # later)) = urlB
    \<and> (cachedBlob (run s0 (Start elA urlA # Start elB urlB # later)) = None
       \<or> (\<exists>png. rB = Inr png
            \<and> cachedBlob (run s0 (Start elA urlA # Start elB urlB # later)) = Some png))"
proof -
  have split: "run s0 (Start elA urlA # Start elB urlB # later)
      = run (run s0 [Start elA urlA, Start elB urlB]) later"
    using run_append [of s0 "[Start elA urlA, Start elB urlB]" later] by simp
  from second_start_clears [OF assms(1-3), of s0]
  have "cachedUrl (run s0 [Start elA urlA, Start elB urlB]) = urlB"
    "cachedBlob (run s0 [Start elA urlA, Start elB urlB]) = None"
    by simp_all
  with run_keeps_newer [OF assms(3,4), of "run s0 [Start elA urlA, Start elB urlB]"]
  show ?thesis unfolding split by blast
qed

theorem stale_prefetch_never_lands_witness:
  "Some photo_el \<noteq> None \<and> Some url_a \<noteq> Some url_b
   \<and> cachedBlob (run empty_cache
        [Start (Some photo_el) (Some url_a), Start (Some photo_el) (Some url_b),
         Settle (Some url_b) (Inr other_png_blob), Settle (Some url_a) (Inr png_blob)])
       = Some other_png_blob
   \<and> cachedBlob (run empty_cache
        [Start (Some photo_el) (Some url_a), Start (Some photo_el) (Some url_b),
         Settle (Some url_a) (Inr png_blob)])
       \<noteq> Some png_blob"
proof -
  have t: "Some photo_el \<noteq> None \<or> truthy (Some url_a)"
    "Some photo_el \<noteq> None \<or> truthy (Some url_b)" by simp_all
  have d: "Some url_a \<noteq> Some url_b" by (simp add: url_a_def url_b_def js_def)
  have o: "other_png_blob \<noteq> png_blob" by (simp add: other_png_blob_def png_blob_def)
  have l1: "list_all (\<lambda>x. x = Settle (Some url_a) (Inr png_blob)
        \<or> x = Settle (Some url_b) (Inr other_png_blob))
      [Settle (Some url_b) (Inr other_png_blob), Settle (Some url_a) (Inr png_blob)]"
    by simp
  have l2: "list_all (\<lambda>x. x = Settle (Some url_a) (Inr png_blob)
        \<or> x = Settle (Some url_b) (Inr other_png_blob))
      [Settle (Some url_a) (Inr png_blob)]"
    by simp
  have first: "cachedBlob (run empty_cache
        [Start (Some photo_el) (Some url_a), Start (Some photo_el) (Some url_b),
         Settle (Some url_b) (Inr other_png_blob), Settle (Some url_a) (Inr png_blob)])
       = Some other_png_blob"
    using d by (simp add: prefetch_start_def prefetch_settle_def empty_cache_def)
  from stale_prefetch_never_lands [OF t d l2, of empty_cache] o
  have "cachedBlob (run empty_cache
        [Start (Some photo_el) (Some url_a), Start (Some photo_el) (Some url_b),
         Settle (Some url_a) (Inr png_blob)])
       \<noteq> Some png_blob"
    by auto
  with first d show ?thesis by simp
qed

section \<open>The focus wait: results\<close>

text \<open>
  The wait ends with \<open>false\<close> at the first run that finds more than 2000 ms passed,
  provided that run and the runs before it see no focus; later runs do not happen.
\<close>

lemma focus_wait_times_out:
  assumes "list_all (\<lambda>tick. \<not> fst tick) before" and "now - start > 2000"
  shows "focus_wait start (before @ (False, now) # after) = Some False"
  using assms
proof (induction before)
  case Nil
  then show ?case by simp
next
  case (Cons tick ticks)
  obtain focused t where tick: "tick = (focused, t)" by (cases tick)
  with Cons show ?case by auto
qed

text \<open>With the focus and a cached blob, the handler does write to the clipboard.\<close>

lemma focused_delivery_writes:
  assumes "focused_on_message e" and "cachedBlob s = Some b"
  shows "\<exists>d. copyImageFromContextMenu e s srcUrl = Some d \<and> ClipboardWrite b \<in> set (calls d)"
  using assms
  by (auto simp: copyImageFromContextMenu_def deliver_def writeToClipboard_def
      split: option.splits)

text \<open>
  Claim C7, as stated: the document is without focus when the menu message is handled and
  the poll does not see the focus within the 2000 ms bound; then the wait gives \<open>false\<close>
  and the handler reports the failure without a clipboard write. The callback looks at
  the focus before it looks at the clock, so the run that would find the time exceeded
  still ends the wait with \<open>true\<close> if the focus is there by then. On the page below no
  run within 2000 ms of the start sees the focus and the run at 2050 ms does: the wait
  gives \<open>true\<close>, the cached blob is written to the clipboard and the response is
  \<open>{ok: true}\<close>.
\<close>

theorem focus_after_bound_counterexample:
  "\<not> focused_on_message late_env
   \<and> list_all (\<lambda>tick. \<not> fst tick)
        (filter (\<lambda>tick. snd tick - wait_start late_env \<le> 2000) (poll_ticks late_env))
   \<and> list_ex (\<lambda>tick. snd tick - wait_start late_env > 2000) (poll_ticks late_env)
   \<and> focus_wait (wait_start late_env) (poll_ticks late_env) = Some True
   \<and> copyImageFromContextMenu late_env warm_cache None =
        Some \<lparr>toasts = [(0x2713 # js '' Image copied!'', False)],
              response_ok = True, calls = [ClipboardWrite png_blob]\<rparr>"
  by (simp add: late_env_def failing_env_def warm_cache_def copyImageFromContextMenu_def
      deliver_def writeToClipboard_def toast_of_def)

text \<open>
  Claim C7, amended. The document is without focus when the menu message is handled, and
  no run of the 50 ms interval callback up to and including the first one that finds
  more than 2000 ms passed sees the focus. Then the wait ends with \<open>false\<close>, and the
  handler shows the toast of the lost focus as an error and responds \<open>{ok: false}\<close>,
  having made no call: neither the pipeline nor the clipboard write is attempted.
\<close>

theorem focus_timeout_reports_failure:
  assumes "\<not> focused_on_message e"
    and "poll_ticks e = before @ (False, now) # after"
    and "list_all (\<lambda>tick. \<not> fst tick) before"
    and "now - wait_start e > 2000"
  shows "focus_wait (wait_start e) (poll_ticks e) = Some False
    \<and> copyImageFromContextMenu e s srcUrl =
        Some \<lparr>toasts = [(0x2717 # js '' Page lost focus '' @ 0x2014 #
                           js '' try refreshing the page and retry'', True)],
              response_ok = False, calls = []\<rparr>
    \<and> (\<exists>d. copyImageFromContextMenu e s srcUrl = Some d \<and> \<not> response_ok d
          \<and> (\<forall>b. ClipboardWrite b \<notin> set (calls d)))"
proof -
  from focus_wait_times_out [OF assms(3,4), of after]
  have w: "focus_wait (wait_start e) (poll_ticks e) = Some False"
    unfolding assms(2) .
  with assms(1) show ?thesis by (simp add: copyImageFromContextMenu_def)
qed

theorem focus_timeout_reports_failure_witness:
  "\<not> focused_on_message failing_env
   \<and> poll_ticks failing_env = [(False, 1050), (False, 2000), (False, 3000)] @ (False, 3050) # []
   \<and> list_all (\<lambda>tick. \<not> fst tick) [(False, 1050), (False, 2000), (False, 3000 :: int)]
   \<and> 3050 - wait_start failing_env > 2000
   \<and> focus_wait (wait_start failing_env) (poll_ticks failing_env) = Some False
   \<and> copyImageFromContextMenu failing_env warm_cache None =
        Some \<lparr>toasts = [(0x2717 # js '' Page lost focus '' @ 0x2014 #
                           js '' try refreshing the page and retry'', True)],
              response_ok = False, calls = []\<rparr>"
proof -
  have a: "\<not> focused_on_message failing_env" by (simp add: failing_env_def)
  have b: "poll_ticks failing_env
      = [(False, 1050), (False, 2000), (False, 3000)] @ (False, 3050) # []"
    by (simp add: failing_env_def)
  have c: "list_all (\<lambda>tick. \<not> fst tick) [(False, 1050), (False, 2000), (False, 3000 :: int)]"
    by simp
  have d: "3050 - wait_start failing_env > 2000" by (simp add: failing_env_def)
  from focus_timeout_reports_failure [OF a b c d, of warm_cache None] a b c d
  show ?thesis by simp
qed

end
